theory Spec2Isabelle
  imports Main
begin

section \<open>Rectangle\<close>

text \<open>
  \<^verbatim>\<open>function Rectangle(width, height) { this.width = width; this.height = height; }\<close>
  \<^verbatim>\<open>Rectangle.prototype.getArea = function () { return this.width * this.height; }\<close>

  The object is a record of its two fields. The number type is left open: the code only
  multiplies, so any type with a multiplication (and, for the claim's side condition, a
  zero and an order) stands for JavaScript's numbers.
\<close>

record 'n rectangle =
  width :: 'n
  height :: 'n

definition Rectangle :: "'n \<Rightarrow> 'n \<Rightarrow> 'n rectangle" where
  "Rectangle w h = \<lparr>width = w, height = h\<rparr>"

definition getArea :: "'n::times rectangle \<Rightarrow> 'n" where
  "getArea this = width this * height this"

section \<open>The selector builder\<close>

subsection \<open>Data\<close>

text \<open>
  A builder is an object with two array fields, \<open>selectors\<close> and \<open>validSort\<close>. Builders
  are shared by reference (a combinator fragment holds the two builders it joins), so
  they live in a store: a list of builder states, a builder's address being its index.
  \<open>new Selector()\<close> allocates at the end of the list.

  An entry of \<open>selectors\<close> is the two-element array \<open>[value, type]\<close>. The type tag is one
  of seven string literals of the source. For the six single-token operations \<open>value\<close> is
  the token (a string); for \<open>combine\<close> it is the array
  \<open>[selector1, combinator, selector2]\<close> and the tag is \<open>'combine'\<close>.
\<close>

type_synonym addr = nat

datatype stype =
  T_element | T_id | T_class | T_attr | T_pseudoClass | T_pseudoElement | T_combine

datatype fragment =
  Single string stype
| Combined addr string addr

text \<open>\<open>ftype cur\<close> is \<open>cur[1]\<close>.\<close>

fun ftype :: "fragment \<Rightarrow> stype" where
  "ftype (Single value t) = t"
| "ftype (Combined selector1 combinator selector2) = T_combine"

record selector =
  selectors :: "fragment list"
  validSort :: "stype list"

type_synonym heap = "selector list"

text \<open>
  The two \<open>throw new Error(...)\<close> of the source differ by their message only; they are the
  first two errors. \<open>TypeError\<close> is what JavaScript raises when \<open>stringify\<close> is called on
  something that is not a builder.
\<close>

datatype error = DuplicateError | OrderError | TypeError

subsection \<open>Methods of one builder\<close>

text \<open>
  A method (type \<open>bmethod\<close>) takes the state of \<open>this\<close> and returns its outcome
  (\<open>Inl\<close> the error thrown, \<open>Inr ()\<close> a normal return) together with the state of \<open>this\<close>
  afterwards. The state is returned in both cases: what a method wrote before it threw
  stays written.
\<close>

type_synonym bmethod = "selector \<Rightarrow> (error + unit) \<times> selector"

definition sortSelectors :: "stype list" where
  "sortSelectors = [T_element, T_id, T_class, T_attr, T_pseudoClass, T_pseudoElement]"

text \<open>\<open>Array.prototype.indexOf\<close>: the first index of the element, or \<open>-1\<close>.\<close>

fun indexOf :: "'a list \<Rightarrow> 'a \<Rightarrow> int" where
  "indexOf [] x = - 1"
| "indexOf (y # ys) x =
     (if y = x then 0 else (let i = indexOf ys x in if i < 0 then - 1 else i + 1))"

text \<open>
  \<^verbatim>\<open>include: function (value, array) {
    for (let cur of array) { if (cur[1] == value[1]) { return true; } }
    return false; }\<close>
\<close>

fun include' :: "fragment \<Rightarrow> fragment list \<Rightarrow> bool" where
  "include' value [] = False"
| "include' value (cur # array) =
     (if ftype cur = ftype value then True else include' value array)"

text \<open>
  \<^verbatim>\<open>tryPush: function (value) {
    if (this.include(value, this.selectors)) { throw new Error("Element, id and ...") }
    else { this.selectors.push(value); } }\<close>
\<close>

definition tryPush :: "fragment \<Rightarrow> bmethod" where
  "tryPush value this =
     (if include' value (selectors this) then (Inl DuplicateError, this)
      else (Inr (), this\<lparr>selectors := selectors this @ [value]\<rparr>))"

text \<open>
  \<^verbatim>\<open>validate: function (value) {
    if (!this.validSort.length) {
      for (let cur of this.selectors) { this.validSort.push(cur[1]); } }
    this.validSort.map((val) => {
      if (this.sortSelectors.indexOf(val) > this.sortSelectors.indexOf(value)) {
        throw new Error("Selector parts should be arranged ...") } }); }\<close>

  \<open>validSort\<close> is filled from \<open>selectors\<close> only while it is empty; the callback of \<open>map\<close>
  throws at the first entry of \<open>validSort\<close> that ranks above \<open>value\<close>.
\<close>

definition validate :: "stype \<Rightarrow> bmethod" where
  "validate value this =
     (let this1 = (if length (validSort this) = 0
                   then this\<lparr>validSort := validSort this @ map ftype (selectors this)\<rparr>
                   else this)
      in if list_ex (\<lambda>val. indexOf sortSelectors val > indexOf sortSelectors value)
              (validSort this1)
         then (Inl OrderError, this1)
         else (Inr (), this1))"

text \<open>Two statements in sequence: the second runs only if the first did not throw.\<close>

definition seq :: "bmethod \<Rightarrow> bmethod \<Rightarrow> bmethod" where
  "seq m1 m2 this =
     (case m1 this of (Inl e, this1) \<Rightarrow> (Inl e, this1) | (Inr u, this1) \<Rightarrow> m2 this1)"

text \<open>\<^verbatim>\<open>this.selectors.push(value)\<close>\<close>

definition push :: "fragment \<Rightarrow> bmethod" where
  "push value this = (Inr (), this\<lparr>selectors := selectors this @ [value]\<rparr>)"

text \<open>
  The seven building methods. Each ends with \<open>return this\<close>, which the invocation
  \<open>call\<close> below supplies. \<open>id\<close> and \<open>class\<close> carry a prime: the plain names are taken.
\<close>

definition element :: "string \<Rightarrow> bmethod" where
  "element value = seq (validate T_element) (tryPush (Single value T_element))"

definition id' :: "string \<Rightarrow> bmethod" where
  "id' value = seq (validate T_id) (tryPush (Single value T_id))"

definition class' :: "string \<Rightarrow> bmethod" where
  "class' value = seq (validate T_class) (push (Single value T_class))"

definition attr :: "string \<Rightarrow> bmethod" where
  "attr value = seq (validate T_attr) (push (Single value T_attr))"

definition pseudoClass :: "string \<Rightarrow> bmethod" where
  "pseudoClass value = seq (validate T_pseudoClass) (push (Single value T_pseudoClass))"

definition pseudoElement :: "string \<Rightarrow> bmethod" where
  "pseudoElement value =
     seq (validate T_pseudoElement) (tryPush (Single value T_pseudoElement))"

definition combine :: "addr \<Rightarrow> string \<Rightarrow> addr \<Rightarrow> bmethod" where
  "combine selector1 combinator selector2 =
     tryPush (Combined selector1 combinator selector2)"

subsection \<open>Builders in the store\<close>

text \<open>
  \<^verbatim>\<open>function Selector() { this.selectors = []; this.validSort = []; return this; }\<close>
\<close>

definition new_Selector :: "heap \<Rightarrow> addr \<times> heap" where
  "new_Selector h = (length h, h @ [\<lparr>selectors = [], validSort = []\<rparr>])"

text \<open>
  \<open>call m this h\<close> invokes the method \<open>m\<close> on the builder at address \<open>this\<close>: the method
  runs on that builder's state, the store is updated at \<open>this\<close> only, and a normal return
  yields \<open>this\<close> itself (\<open>return this\<close>). An address that holds no builder has no such
  method.
\<close>

definition call :: "bmethod \<Rightarrow> addr \<Rightarrow> heap \<Rightarrow> (error + addr) \<times> heap" where
  "call m this h =
     (if this < length h
      then (case m (h ! this) of
              (Inl e, this1) \<Rightarrow> (Inl e, h[this := this1])
            | (Inr u, this1) \<Rightarrow> (Inr this, h[this := this1]))
      else (Inl TypeError, h))"

text \<open>
  A chained call \<open>e.m(...)\<close>: \<open>e\<close> is evaluated first, and \<open>m\<close> is invoked on the builder
  it returns; an error of \<open>e\<close> propagates.
\<close>

definition chain ::
  "(error + addr) \<times> heap \<Rightarrow> bmethod \<Rightarrow> (error + addr) \<times> heap" where
  "chain r m = (case r of (Inl e, h) \<Rightarrow> (Inl e, h) | (Inr this, h) \<Rightarrow> call m this h)"

subsection \<open>The facade\<close>

text \<open>
  \<^verbatim>\<open>element: function (value) { return new Selector().element(value); }\<close> and so on.
\<close>

definition on_new :: "bmethod \<Rightarrow> heap \<Rightarrow> (error + addr) \<times> heap" where
  "on_new m h = (case new_Selector h of (this, h1) \<Rightarrow> call m this h1)"

definition cssSelectorBuilder_element :: "string \<Rightarrow> heap \<Rightarrow> (error + addr) \<times> heap" where
  "cssSelectorBuilder_element value = on_new (element value)"

definition cssSelectorBuilder_id :: "string \<Rightarrow> heap \<Rightarrow> (error + addr) \<times> heap" where
  "cssSelectorBuilder_id value = on_new (id' value)"

definition cssSelectorBuilder_class :: "string \<Rightarrow> heap \<Rightarrow> (error + addr) \<times> heap" where
  "cssSelectorBuilder_class value = on_new (class' value)"

definition cssSelectorBuilder_attr :: "string \<Rightarrow> heap \<Rightarrow> (error + addr) \<times> heap" where
  "cssSelectorBuilder_attr value = on_new (attr value)"

definition cssSelectorBuilder_pseudoClass ::
  "string \<Rightarrow> heap \<Rightarrow> (error + addr) \<times> heap" where
  "cssSelectorBuilder_pseudoClass value = on_new (pseudoClass value)"

definition cssSelectorBuilder_pseudoElement ::
  "string \<Rightarrow> heap \<Rightarrow> (error + addr) \<times> heap" where
  "cssSelectorBuilder_pseudoElement value = on_new (pseudoElement value)"

definition cssSelectorBuilder_combine ::
  "addr \<Rightarrow> string \<Rightarrow> addr \<Rightarrow> heap \<Rightarrow> (error + addr) \<times> heap" where
  "cssSelectorBuilder_combine selector1 combinator selector2 =
     on_new (combine selector1 combinator selector2)"

subsection \<open>Rendering\<close>

text \<open>
  \<^verbatim>\<open>stringify: function () {
    return this.selectors.reduce((prev, cur) => {
      let str = '', value = cur[0], type = cur[1];
      switch (type) {
        case 'element': str = value; break;
        case 'id': str = '#' + value; break;
        case 'class': str = '.' + value; break;
        case 'attr': str = '[' + value + ']'; break;
        case 'pseudoClass': str = ':' + value; break;
        case 'pseudoElement': str = '::' + value; break;
        case 'combine':
          str = value[0].stringify() + ' ' + value[1] + ' ' + value[2].stringify();
          break; }
      return prev += str; }, ''); }\<close>

  \<open>stringify\<close> calls itself on the builders a combinator fragment holds, and a builder
  can be made to hold itself, so the recursion is bounded by a budget of nested calls:
  \<open>None\<close> says that the budget ran out. Like every method it is given the store and
  returns it. \<open>case_type rec cur h\<close> is the \<open>switch\<close>, with \<open>rec\<close> the nested
  \<open>stringify\<close>; in \<open>'combine'\<close> the left builder is rendered before the right one. A
  string tagged \<open>'combine'\<close> has no \<open>stringify\<close> method on its first character.
\<close>

type_synonym rendering = "(error + string) option"

fun case_type ::
  "(addr \<Rightarrow> heap \<Rightarrow> rendering \<times> heap) \<Rightarrow> fragment \<Rightarrow> heap \<Rightarrow> rendering \<times> heap" where
  "case_type rec (Single value T_element) h = (Some (Inr value), h)"
| "case_type rec (Single value T_id) h = (Some (Inr (''#'' @ value)), h)"
| "case_type rec (Single value T_class) h = (Some (Inr (''.'' @ value)), h)"
| "case_type rec (Single value T_attr) h = (Some (Inr (''['' @ value @ '']'')), h)"
| "case_type rec (Single value T_pseudoClass) h = (Some (Inr ('':'' @ value)), h)"
| "case_type rec (Single value T_pseudoElement) h = (Some (Inr (''::'' @ value)), h)"
| "case_type rec (Single value T_combine) h = (Some (Inl TypeError), h)"
| "case_type rec (Combined selector1 combinator selector2) h =
     (case rec selector1 h of
        (Some (Inr s1), h1) \<Rightarrow>
          (case rec selector2 h1 of
             (Some (Inr s2), h2) \<Rightarrow> (Some (Inr (s1 @ '' '' @ combinator @ '' '' @ s2)), h2)
           | (r, h2) \<Rightarrow> (r, h2))
      | (r, h1) \<Rightarrow> (r, h1))"

text \<open>\<open>reduce cb array prev h\<close> is \<open>array.reduce(cb, prev)\<close> with \<open>prev += str\<close>.\<close>

fun reduce ::
  "(fragment \<Rightarrow> heap \<Rightarrow> rendering \<times> heap) \<Rightarrow> fragment list \<Rightarrow> string \<Rightarrow> heap
     \<Rightarrow> rendering \<times> heap" where
  "reduce cb [] prev h = (Some (Inr prev), h)"
| "reduce cb (cur # array) prev h =
     (case cb cur h of
        (Some (Inr str), h1) \<Rightarrow> reduce cb array (prev @ str) h1
      | (r, h1) \<Rightarrow> (r, h1))"

fun stringify :: "nat \<Rightarrow> addr \<Rightarrow> heap \<Rightarrow> rendering \<times> heap" where
  "stringify 0 this h = (None, h)"
| "stringify (Suc n) this h =
     (if this < length h
      then reduce (case_type (stringify n)) (selectors (h ! this)) [] h
      else (Some (Inl TypeError), h))"

subsection \<open>Rendering, in the words of the specification\<close>

text \<open>
  The specification describes \<open>stringify\<close> as the concatenation, in sequence order and
  with nothing in between, of each fragment's textual form: the token for an element,
  \<open>#\<close>, \<open>.\<close>, \<open>:\<close> or \<open>::\<close> before the token for an id, a class, a pseudo-class or
  a pseudo-element, the token in brackets for an attribute, and
  \<open>left.stringify() + ' ' + operator + ' ' + right.stringify()\<close> for a combinator. The
  following definitions say that, as a function of the store that writes nothing;
  \<open>join\<close> concatenates two renderings, and the first of them that is not a string is the
  outcome.
\<close>

fun join :: "rendering \<Rightarrow> rendering \<Rightarrow> rendering" where
  "join (Some (Inr s)) (Some (Inr t)) = Some (Inr (s @ t))"
| "join (Some (Inr s)) r = r"
| "join r r' = r"

fun textual_form :: "(addr \<Rightarrow> rendering) \<Rightarrow> fragment \<Rightarrow> rendering" where
  "textual_form sub (Single token T_element) = Some (Inr token)"
| "textual_form sub (Single token T_id) = Some (Inr (''#'' @ token))"
| "textual_form sub (Single token T_class) = Some (Inr (''.'' @ token))"
| "textual_form sub (Single token T_attr) = Some (Inr (''['' @ token @ '']''))"
| "textual_form sub (Single token T_pseudoClass) = Some (Inr ('':'' @ token))"
| "textual_form sub (Single token T_pseudoElement) = Some (Inr (''::'' @ token))"
| "textual_form sub (Single token T_combine) = Some (Inl TypeError)"
| "textual_form sub (Combined left operator right) =
     join (join (join (join (sub left) (Some (Inr '' ''))) (Some (Inr operator)))
             (Some (Inr '' ''))) (sub right)"

fun spec_stringify :: "nat \<Rightarrow> heap \<Rightarrow> addr \<Rightarrow> rendering" where
  "spec_stringify 0 h b = None"
| "spec_stringify (Suc n) h b =
     (if b < length h
      then foldl join (Some (Inr []))
             (map (textual_form (spec_stringify n h)) (selectors (h ! b)))
      else Some (Inl TypeError))"

subsection \<open>Stores in which rendering ends\<close>

text \<open>
  A store is ranked by \<open>rk\<close> when every combinator fragment of every builder joins two
  builders of the store that rank strictly below the builder holding it, and every
  other fragment carries one of the six token tags. The facade builds such stores: each
  of its calls works on a new builder, which ranks above all the existing ones.
\<close>

fun fragment_ok :: "(addr \<Rightarrow> nat) \<Rightarrow> heap \<Rightarrow> addr \<Rightarrow> fragment \<Rightarrow> bool" where
  "fragment_ok rk h b (Single token t) = (t \<noteq> T_combine)"
| "fragment_ok rk h b (Combined left operator right) =
     (left < length h \<and> right < length h \<and> rk left < rk b \<and> rk right < rk b)"

definition ranked :: "(addr \<Rightarrow> nat) \<Rightarrow> heap \<Rightarrow> bool" where
  "ranked rk h = list_all (\<lambda>b. list_all (fragment_ok rk h b) (selectors (h ! b))) [0..<length h]"

subsection \<open>Sequences of calls\<close>

text \<open>
  The seven building calls as data, so that "every sequence of calls" can be quantified
  over. \<open>run ops this\<close> makes the calls \<open>ops\<close> on one builder, one after the other,
  whether they return or throw (a caller may catch the error and go on): it is the state
  of the builder afterwards.
\<close>

datatype operation =
  Op_element string | Op_id string | Op_class string | Op_attr string
| Op_pseudoClass string | Op_pseudoElement string | Op_combine addr string addr

fun method_of :: "operation \<Rightarrow> bmethod" where
  "method_of (Op_element v) = element v"
| "method_of (Op_id v) = id' v"
| "method_of (Op_class v) = class' v"
| "method_of (Op_attr v) = attr v"
| "method_of (Op_pseudoClass v) = pseudoClass v"
| "method_of (Op_pseudoElement v) = pseudoElement v"
| "method_of (Op_combine selector1 combinator selector2) =
     combine selector1 combinator selector2"

text \<open>The six calls that append a token; the seventh is \<open>combine\<close>.\<close>

fun is_token_call :: "operation \<Rightarrow> bool" where
  "is_token_call (Op_combine selector1 combinator selector2) = False"
| "is_token_call op = True"

fun run :: "operation list \<Rightarrow> selector \<Rightarrow> selector" where
  "run [] this = this"
| "run (op # ops) this = run ops (snd (method_of op this))"

text \<open>
  What \<open>validate\<close> compares with: \<open>validSort\<close>, or the tags of \<open>selectors\<close> while
  \<open>validSort\<close> is empty. On every builder that a sequence of calls has made, no entry
  of it ranks above a token fragment of the builder (\<open>cache_below\<close>).
\<close>

definition cache :: "selector \<Rightarrow> stype list" where
  "cache this = (if validSort this = [] then map ftype (selectors this) else validSort this)"

definition cache_below :: "selector \<Rightarrow> bool" where
  "cache_below this =
     (\<forall>val\<in>set (cache this). \<forall>cur\<in>set (selectors this).
        ftype cur \<noteq> T_combine
          \<longrightarrow> indexOf sortSelectors val \<le> indexOf sortSelectors (ftype cur))"

text \<open>A builder holds at most one fragment tagged \<open>t\<close>.\<close>

definition at_most_once :: "stype \<Rightarrow> selector \<Rightarrow> bool" where
  "at_most_once t this = (length (filter (\<lambda>cur. ftype cur = t) (selectors this)) \<le> 1)"

subsection \<open>Builders a rendering reads\<close>

text \<open>
  \<open>reach h b\<close> are the builders that rendering \<open>b\<close> in the store \<open>h\<close> can come to: \<open>b\<close>
  itself, and the builders joined by a combinator fragment of a builder it comes to.
\<close>

inductive_set reach :: "heap \<Rightarrow> addr \<Rightarrow> addr set" for h :: heap and b :: addr where
  here: "b \<in> reach h b"
| left: "x \<in> reach h b \<Longrightarrow> x < length h \<Longrightarrow> Combined l c r \<in> set (selectors (h ! x))
         \<Longrightarrow> l \<in> reach h b"
| right: "x \<in> reach h b \<Longrightarrow> x < length h \<Longrightarrow> Combined l c r \<in> set (selectors (h ! x))
         \<Longrightarrow> r \<in> reach h b"

section \<open>JSON\<close>

text \<open>
  \<^verbatim>\<open>function getJSON(obj) { return JSON.stringify(obj); }\<close>
  \<^verbatim>\<open>function fromJSON(proto, json) {
    return Object.setPrototypeOf(JSON.parse(json), proto); }\<close>

  The two functions are one call each of \<open>JSON.stringify\<close>, \<open>JSON.parse\<close> and
  \<open>Object.setPrototypeOf\<close>, which belong to the host and are no code of this program.
  They are modelled below as standard JSON serialization and parsing, in two steps each:
  between a value and a JSON document (a syntax tree), which is written out here, and
  between a document and its characters, which is a parameter of the two functions.
\<close>

subsection \<open>Values\<close>

text \<open>
  A number is finite, or one of the four numbers that JSON has no literal for or does not
  write: \<open>-0\<close>, \<open>NaN\<close>, \<open>Infinity\<close> and \<open>-Infinity\<close>. The type \<open>'n\<close> holds the finite
  numbers other than \<open>-0\<close>, and its \<open>0\<close> is \<open>+0\<close>.

  A value is what a field can hold once functions, \<open>undefined\<close> and cycles are set aside:
  \<open>null\<close>, a boolean, a number, a string, an array without holes and without properties
  of its own other than its elements, or a plain object, given by its own enumerable
  data properties in the order of enumeration. Strings are lists of 8-bit characters.
\<close>

datatype 'n number = Finite 'n | NegZero | NaN | PosInfinity | NegInfinity

datatype 'n jsvalue =
  V_null | V_boolean bool | V_number "'n number" | V_string string
| V_array "'n jsvalue list" | V_object "(string \<times> 'n jsvalue) list"

text \<open>
  A JSON document: the syntax tree of a JSON text, with the members of an object in the
  order of the text, a name possibly more than once. The type of the numbers is \<open>'n\<close> in
  a document to write and \<open>'n number\<close> in a document that was read, since a JSON number
  may read as \<open>-0\<close> or, when it is too large, as an infinity.
\<close>

datatype 'n json =
  JNull | JBool bool | JNumber 'n | JString string
| JArray "'n json list" | JObject "(string \<times> 'n json) list"

subsection \<open>From a value to a document\<close>

text \<open>
  Modelled from the spec: \<open>JSON.stringify\<close> is missing from the sources (a host function);
  the spec has it as \<^emph>\<open>standard JSON serialization\<close>, and this is the standard's
  \<open>SerializeJSONProperty\<close> on the values above: a number that is not finite is written as
  \<open>null\<close>, \<open>-0\<close> is written as \<open>0\<close>, an array gives its elements and an object its own
  properties in the order of enumeration.
\<close>

primrec to_json :: "('n::zero) jsvalue \<Rightarrow> 'n json" where
  "to_json V_null = JNull"
| "to_json (V_boolean b) = JBool b"
| "to_json (V_number n) =
     (case n of Finite x \<Rightarrow> JNumber x | NegZero \<Rightarrow> JNumber 0 | _ \<Rightarrow> JNull)"
| "to_json (V_string s) = JString s"
| "to_json (V_array vs) = JArray (map to_json vs)"
| "to_json (V_object ps) = JObject (map (map_prod id to_json) ps)"

subsection \<open>From a document to a value\<close>

text \<open>
  An array index is a property name that is the decimal numeral, without leading zeros,
  of a number below 4294967295. An object enumerates its array indices first, in
  ascending order, and then its other names in the order of their creation.
\<close>

definition is_digit :: "char \<Rightarrow> bool" where
  "is_digit c = (c \<in> set ''0123456789'')"

definition digit_value :: "char \<Rightarrow> nat" where
  "digit_value c = of_char c - 48"

definition decimal :: "string \<Rightarrow> nat" where
  "decimal s = foldl (\<lambda>a c. 10 * a + digit_value c) 0 s"

definition array_index :: "string \<Rightarrow> nat option" where
  "array_index k =
     (if k \<noteq> [] \<and> list_all is_digit k \<and> (k = ''0'' \<or> hd k \<noteq> CHR ''0'')
         \<and> decimal k \<le> 4294967294
      then Some (decimal k) else None)"

fun insert_index :: "nat \<Rightarrow> string \<times> 'v \<Rightarrow> (string \<times> 'v) list \<Rightarrow> (string \<times> 'v) list" where
  "insert_index i p [] = [p]"
| "insert_index i p (q # ps) =
     (case array_index (fst q) of
        Some j \<Rightarrow> if j < i then q # insert_index i p ps else p # q # ps
      | None \<Rightarrow> p # q # ps)"

text \<open>
  Modelled from the spec: \<open>JSON.parse\<close> is missing from the sources (a host function); the
  spec has it as \<^emph>\<open>JSON-parsing the text\<close>, and this is how the standard builds the
  object of a JSON object: \<open>CreateDataProperty\<close> for each member in the order of the text,
  so that a name met again keeps its place and takes the later value, and a new name
  takes its place in the order of enumeration.
\<close>

definition CreateDataProperty ::
  "(string \<times> 'v) list \<Rightarrow> string \<Rightarrow> 'v \<Rightarrow> (string \<times> 'v) list" where
  "CreateDataProperty ps k v =
     (if k \<in> fst ` set ps then map (\<lambda>q. if fst q = k then (k, v) else q) ps
      else case array_index k of
             Some i \<Rightarrow> insert_index i (k, v) ps
           | None \<Rightarrow> ps @ [(k, v)])"

definition create_object :: "(string \<times> 'v) list \<Rightarrow> (string \<times> 'v) list" where
  "create_object ms = foldl (\<lambda>ps m. CreateDataProperty ps (fst m) (snd m)) [] ms"

primrec from_json :: "'n number json \<Rightarrow> 'n jsvalue" where
  "from_json JNull = V_null"
| "from_json (JBool b) = V_boolean b"
| "from_json (JNumber n) = V_number n"
| "from_json (JString s) = V_string s"
| "from_json (JArray ds) = V_array (map from_json ds)"
| "from_json (JObject ms) = V_object (create_object (map (map_prod id from_json) ms))"

subsection \<open>The host functions and the two functions of the program\<close>

text \<open>
  Modelled from the spec: the characters of a document are the host's (the digits of a
  number, the escapes of a string), and missing from the sources. \<open>JSON.stringify\<close> is
  \<open>to_json\<close> followed by the host's writer, \<open>JSON.parse\<close> the host's reader followed by
  \<open>from_json\<close>; a text that the reader rejects is a \<open>SyntaxError\<close>.
\<close>

datatype js_error = JS_SyntaxError | JS_TypeError

definition JSON_stringify :: "('n json \<Rightarrow> string) \<Rightarrow> ('n::zero) jsvalue \<Rightarrow> string" where
  "JSON_stringify writer v = writer (to_json v)"

definition JSON_parse ::
  "(string \<Rightarrow> 'n number json option) \<Rightarrow> string \<Rightarrow> js_error + 'n jsvalue" where
  "JSON_parse reader json =
     (case reader json of None \<Rightarrow> Inl JS_SyntaxError | Some d \<Rightarrow> Inr (from_json d))"

text \<open>
  A prototype is the table of the methods found along it, by name; a method computes
  from the own properties of \<open>this\<close>.

  Modelled from the spec: \<open>Object.setPrototypeOf\<close> is missing from the sources (a host
  function); the spec has it as \<^emph>\<open>associating the parsed data with the supplied
  prototype\<close>, and this is the standard's: \<open>null\<close> is a \<open>TypeError\<close>, a boolean, a number or
  a string is returned as it is, and an object or an array is returned with the new
  prototype.
\<close>

type_synonym ('n, 'r) capabilities = "string \<Rightarrow> ('n jsvalue \<Rightarrow> 'r) option"

datatype ('n, 'r) js_result =
  Primitive "'n jsvalue"
| Instance "'n jsvalue" "('n, 'r) capabilities"

fun setPrototypeOf :: "'n jsvalue \<Rightarrow> ('n, 'r) capabilities \<Rightarrow> js_error + ('n, 'r) js_result" where
  "setPrototypeOf V_null proto = Inl JS_TypeError"
| "setPrototypeOf (V_object ps) proto = Inr (Instance (V_object ps) proto)"
| "setPrototypeOf (V_array vs) proto = Inr (Instance (V_array vs) proto)"
| "setPrototypeOf v proto = Inr (Primitive v)"

definition getJSON :: "('n json \<Rightarrow> string) \<Rightarrow> ('n::zero) jsvalue \<Rightarrow> string" where
  "getJSON writer obj = JSON_stringify writer obj"

definition fromJSON ::
  "(string \<Rightarrow> 'n number json option) \<Rightarrow> ('n, 'r) capabilities \<Rightarrow> string
     \<Rightarrow> js_error + ('n, 'r) js_result" where
  "fromJSON reader proto json =
     (case JSON_parse reader json of
        Inl e \<Rightarrow> Inl e
      | Inr parsed \<Rightarrow> setPrototypeOf parsed proto)"




subsection \<open>The values of the round trip\<close>




subsection \<open>A reference writer and reader\<close>

text \<open>
  One writer and one reader of documents whose numbers are natural numbers, in the
  compact form that \<open>JSON.stringify\<close> writes: no white space, a number in decimal digits,
  a string between double quotes, with the double quote and the backslash each
  escaped by a backslash. They stand for the
  host where a text is computed, and show that a reader can give back every document
  that the writer wrote. The reader counts down from the length of the text, which
  bounds the depth of the document.
\<close>

definition digit_char :: "nat \<Rightarrow> char" where
  "digit_char n = ''0123456789'' ! n"

function show_nat :: "nat \<Rightarrow> string" where
  "show_nat n = (if n < 10 then [digit_char n] else show_nat (n div 10) @ [digit_char (n mod 10)])"
  by pat_completeness auto
termination
  by (relation "measure (\<lambda>n. n)") auto

declare show_nat.simps [simp del]

fun escape :: "string \<Rightarrow> string" where
  "escape [] = []"
| "escape (c # s) =
     (if c = CHR 0x22 \<or> c = CHR 0x5C then CHR 0x5C # c # escape s else c # escape s)"

definition quote :: "string \<Rightarrow> string" where
  "quote s = CHR 0x22 # escape s @ [CHR 0x22]"

fun sep :: "string list \<Rightarrow> string" where
  "sep [] = []"
| "sep [x] = x"
| "sep (x # y # zs) = x @ CHR '','' # sep (y # zs)"

primrec ref_write :: "nat json \<Rightarrow> string" where
  "ref_write JNull = ''null''"
| "ref_write (JBool b) = (if b then ''true'' else ''false'')"
| "ref_write (JNumber n) = show_nat n"
| "ref_write (JString s) = quote s"
| "ref_write (JArray ds) = CHR ''['' # sep (map ref_write ds) @ [CHR '']'']"
| "ref_write (JObject ms) =
     CHR ''{'' # sep (map (\<lambda>m. quote (fst m) @ CHR '':'' # snd m) (map (map_prod id ref_write) ms))
       @ [CHR ''}'']"









section \<open>Evaluation of the operations\<close>

lemma sortSelectors_index [simp]:
  "indexOf sortSelectors T_element = 0"
  "indexOf sortSelectors T_id = 1"
  "indexOf sortSelectors T_class = 2"
  "indexOf sortSelectors T_attr = 3"
  "indexOf sortSelectors T_pseudoClass = 4"
  "indexOf sortSelectors T_pseudoElement = 5"
  "indexOf sortSelectors T_combine = - 1"
  by (simp_all add: sortSelectors_def)

lemma include'_iff: "include' value array \<longleftrightarrow> ftype value \<in> ftype ` set array"
  by (induction array) auto

lemmas builder_defs =
  chain_def on_new_def new_Selector_def call_def seq_def validate_def tryPush_def push_def
  element_def id'_def class'_def attr_def pseudoClass_def pseudoElement_def combine_def
  cssSelectorBuilder_element_def cssSelectorBuilder_id_def cssSelectorBuilder_class_def
  cssSelectorBuilder_attr_def cssSelectorBuilder_pseudoClass_def
  cssSelectorBuilder_pseudoElement_def cssSelectorBuilder_combine_def

section \<open>Rectangle: fields and area\<close>

text \<open>
  C7. For all numbers \<open>w, h \<ge> 0\<close>, \<open>new Rectangle(w, h)\<close> has the field \<open>width\<close> equal to
  \<open>w\<close>, the field \<open>height\<close> equal to \<open>h\<close>, and \<open>getArea()\<close> returns \<open>w * h\<close>. The product
  is the one of the number type, whatever that type is; the side condition is the
  claim's and is not needed.
\<close>

theorem Rectangle_fields_and_area:
  fixes w h :: "'n::{times,zero,ord}"
  assumes "0 \<le> w" and "0 \<le> h"
  shows "width (Rectangle w h) = w \<and> height (Rectangle w h) = h
         \<and> getArea (Rectangle w h) = w * h"
  by (simp add: Rectangle_def getArea_def)

theorem Rectangle_fields_and_area_witness:
  "(0::int) \<le> 10 \<and> (0::int) \<le> 20
   \<and> width (Rectangle (10::int) 20) = 10 \<and> height (Rectangle (10::int) 20) = 20
   \<and> getArea (Rectangle (10::int) 20) = 200"
  using Rectangle_fields_and_area [of "10::int" "20::int"] by simp

section \<open>JSON: the round trip\<close>

subsection \<open>A document that is read back gives the value\<close>







subsection \<open>The reference reader reads what the reference writer wrote\<close>





















subsection \<open>The round trip\<close>




subsection \<open>The numbers that do not come back, and the other outcomes of \<open>fromJSON\<close>\<close>

text \<open>
  On every host whose reader gives back what its writer wrote, a field that holds a
  number comes back as that number only when the number is finite and not \<open>-0\<close>: \<open>-0\<close>
  comes back as \<open>0\<close>, and \<open>NaN\<close> and the infinities come back as \<open>null\<close>.
\<close>

lemma number_field_after_round_trip:
  assumes "\<And>d. reader (writer d) = Some (map_json Finite d)"
  shows "fromJSON reader proto (getJSON writer (V_object [(k, V_number n)]))
           = Inr (Instance
                    (V_object [(k, case n of Finite x \<Rightarrow> V_number (Finite x)
                                   | NegZero \<Rightarrow> V_number (Finite 0)
                                   | _ \<Rightarrow> V_null)])
                    proto)"
  by (cases n)
    (simp_all add: fromJSON_def getJSON_def JSON_parse_def JSON_stringify_def assms
       create_object_def CreateDataProperty_def split: option.splits)

text \<open>
  The other outcomes of \<open>fromJSON\<close>: a text that the host rejects is a \<open>SyntaxError\<close>, the
  text \<open>null\<close> is a \<open>TypeError\<close>, and the text of a number comes back as the number,
  without the prototype.
\<close>

lemma fromJSON_rejected_text:
  "reader json = None \<Longrightarrow> fromJSON reader proto json = Inl JS_SyntaxError"
  by (simp add: fromJSON_def JSON_parse_def)

lemma fromJSON_null:
  "reader json = Some JNull \<Longrightarrow> fromJSON reader proto json = Inl JS_TypeError"
  by (simp add: fromJSON_def JSON_parse_def)

lemma fromJSON_number:
  "reader json = Some (JNumber n) \<Longrightarrow> fromJSON reader proto json = Inr (Primitive (V_number n))"
  by (simp add: fromJSON_def JSON_parse_def)

text \<open>
  The example of the source's documentation, \<open>[1,2,3] => '[1,2,3]'\<close>, with the reference
  writer.
\<close>

lemma getJSON_documented_example:
  "getJSON ref_write (V_array [V_number (Finite 1), V_number (Finite 2), V_number (Finite 3)])
     = ''[1,2,3]''"
  by (simp add: getJSON_def JSON_stringify_def show_nat.simps digit_char_def)

section \<open>Rendering\<close>

subsection \<open>The code renders what the specification describes\<close>

lemma join_failed [simp]: "join None r = None" "join (Some (Inl e)) r = Some (Inl e)"
  by simp_all

lemma foldl_join_failed [simp]:
  "foldl join None rs = None" "foldl join (Some (Inl e)) rs = Some (Inl e)"
  by (induction rs) simp_all

lemma foldl_join_strings:
  "foldl join (Some (Inr p)) (map (\<lambda>s. Some (Inr s)) ss) = Some (Inr (p @ concat ss))"
  by (induction ss arbitrary: p) simp_all

text \<open>
  The \<open>switch\<close>, given a nested \<open>stringify\<close> that computes \<open>sub\<close> and returns the store as
  it was, computes the textual form and returns the store as it was.
\<close>

lemma case_type_spec:
  assumes "\<And>b. rec b h = (sub b, h)"
  shows "case_type rec cur h = (textual_form sub cur, h)"
proof (cases cur)
  case (Single token t)
  then show ?thesis by (cases t) simp_all
next
  case (Combined selector1 combinator selector2)
  show ?thesis
  proof (cases "sub selector1")
    case None
    then show ?thesis using Combined assms by simp
  next
    case (Some r1)
    show ?thesis
    proof (cases r1)
      case (Inl e)
      then show ?thesis using Some Combined assms by simp
    next
      case (Inr s1)
      then show ?thesis using Some Combined assms
        by (simp split: option.splits sum.splits)
    qed
  qed
qed

lemma reduce_spec:
  assumes "\<And>cur. cb cur h = (g cur, h)"
  shows "reduce cb array prev h = (foldl join (Some (Inr prev)) (map g array), h)"
proof (induction array arbitrary: prev)
  case Nil
  show ?case by simp
next
  case (Cons cur array)
  show ?case
  proof (cases "g cur")
    case None
    then show ?thesis using assms by simp
  next
    case (Some r)
    then show ?thesis using assms Cons by (cases r) simp_all
  qed
qed

lemma stringify_spec: "stringify n this h = (spec_stringify n h this, h)"
proof (induction n arbitrary: this)
  case 0
  show ?case by simp
next
  case (Suc n)
  have "\<And>cur. case_type (stringify n) cur h = (textual_form (spec_stringify n h) cur, h)"
    by (rule case_type_spec) (rule Suc)
  then show ?case by (simp add: reduce_spec)
qed

lemma case_type_fst:
  "fst (case_type (stringify n) cur h) = textual_form (spec_stringify n h) cur"
  by (simp add: case_type_spec [where sub = "spec_stringify n h"] stringify_spec)

text \<open>
  C3. \<open>stringify\<close> renders the fragments in sequence order with nothing between them,
  each in the textual form of its category. For every budget, builder and store the
  code's \<open>stringify\<close> returns what \<open>spec_stringify\<close> describes, and writes nothing. When
  the \<open>switch\<close> gives the string \<open>tf cur\<close> for every fragment \<open>cur\<close> of the builder, the
  result is the concatenation of these strings in the order of the sequence. The
  \<open>switch\<close> gives the token for an element, the token after \<open>#\<close>, \<open>.\<close>, \<open>:\<close>, \<open>::\<close> for
  an id, a class, a pseudo-class, a pseudo-element, the token in brackets for an
  attribute, and \<open>left.stringify() + ' ' + operator + ' ' + right.stringify()\<close> for a
  combinator. The six operations in order render \<open>elem#id.cls[attr]:pc::pe\<close>, and
  \<open>combine(element('div').id('main'), '+', element('table'))\<close> renders
  \<open>div#main + table\<close>.
\<close>

theorem stringify_concatenates_textual_forms:
  "stringify n this h = (spec_stringify n h this, h)
   \<and> (this < length h
        \<and> (\<forall>cur\<in>set (selectors (h ! this)).
              fst (case_type (stringify n) cur h) = Some (Inr (tf cur)))
        \<longrightarrow> stringify (Suc n) this h
              = (Some (Inr (concat (map tf (selectors (h ! this))))), h))
   \<and> fst (case_type rec (Single token T_element) h) = Some (Inr token)
   \<and> fst (case_type rec (Single token T_id) h) = Some (Inr (''#'' @ token))
   \<and> fst (case_type rec (Single token T_class) h) = Some (Inr (''.'' @ token))
   \<and> fst (case_type rec (Single token T_attr) h) = Some (Inr (''['' @ token @ '']''))
   \<and> fst (case_type rec (Single token T_pseudoClass) h) = Some (Inr ('':'' @ token))
   \<and> fst (case_type rec (Single token T_pseudoElement) h) = Some (Inr (''::'' @ token))
   \<and> (fst (stringify n left h) = Some (Inr s1) \<and> fst (stringify n right h) = Some (Inr s2)
        \<longrightarrow> fst (case_type (stringify n) (Combined left operator right) h)
              = Some (Inr (s1 @ '' '' @ operator @ '' '' @ s2)))
   \<and> chain (chain (chain (chain (chain (cssSelectorBuilder_element ''elem'' [])
        (id' ''id'')) (class' ''cls'')) (attr ''attr'')) (pseudoClass ''pc''))
        (pseudoElement ''pe'')
     = (Inr 0, [\<lparr>selectors = [Single ''elem'' T_element, Single ''id'' T_id,
                    Single ''cls'' T_class, Single ''attr'' T_attr,
                    Single ''pc'' T_pseudoClass, Single ''pe'' T_pseudoElement],
                  validSort = [T_element]\<rparr>])
   \<and> fst (stringify (Suc 0) 0
            [\<lparr>selectors = [Single ''elem'' T_element, Single ''id'' T_id,
                    Single ''cls'' T_class, Single ''attr'' T_attr,
                    Single ''pc'' T_pseudoClass, Single ''pe'' T_pseudoElement],
               validSort = [T_element]\<rparr>])
     = Some (Inr ''elem#id.cls[attr]:pc::pe'')
   \<and> (case chain (cssSelectorBuilder_element ''div'' []) (id' ''main'') of
        (Inr left, h1) \<Rightarrow>
          (case cssSelectorBuilder_element ''table'' h1 of
             (Inr right, h2) \<Rightarrow>
               (case cssSelectorBuilder_combine left ''+'' right h2 of
                  (Inr b, h3) \<Rightarrow>
                    fst (stringify (Suc (Suc 0)) b h3) = Some (Inr ''div#main + table'')
                | (Inl e, h3) \<Rightarrow> False)
           | (Inl e, h2) \<Rightarrow> False)
      | (Inl e, h1) \<Rightarrow> False)"
proof (intro conjI impI)
  show "stringify n this h = (spec_stringify n h this, h)"
    by (rule stringify_spec)
next
  assume a: "this < length h
        \<and> (\<forall>cur\<in>set (selectors (h ! this)).
              fst (case_type (stringify n) cur h) = Some (Inr (tf cur)))"
  then have "map (textual_form (spec_stringify n h)) (selectors (h ! this))
        = map (\<lambda>s. Some (Inr s)) (map tf (selectors (h ! this)))"
    by (simp add: case_type_fst)
  then show "stringify (Suc n) this h
              = (Some (Inr (concat (map tf (selectors (h ! this))))), h)"
    using a by (simp add: stringify_spec foldl_join_strings del: map_map)
next
  assume "fst (stringify n left h) = Some (Inr s1) \<and> fst (stringify n right h) = Some (Inr s2)"
  then show "fst (case_type (stringify n) (Combined left operator right) h)
              = Some (Inr (s1 @ '' '' @ operator @ '' '' @ s2))"
    by (simp add: case_type_fst stringify_spec)
qed (simp_all add: builder_defs)

theorem stringify_concatenates_textual_forms_witness:
  "stringify 2 2
     [\<lparr>selectors = [Single ''div'' T_element, Single ''main'' T_id], validSort = [T_element]\<rparr>,
      \<lparr>selectors = [Single ''table'' T_element], validSort = []\<rparr>,
      \<lparr>selectors = [Combined 0 ''+'' 1, Single ''x'' T_class], validSort = []\<rparr>]
   = (Some (Inr (concat [''div#main + table'', ''.x''])),
      [\<lparr>selectors = [Single ''div'' T_element, Single ''main'' T_id], validSort = [T_element]\<rparr>,
       \<lparr>selectors = [Single ''table'' T_element], validSort = []\<rparr>,
       \<lparr>selectors = [Combined 0 ''+'' 1, Single ''x'' T_class], validSort = []\<rparr>])
   \<and> fst (case_type (stringify 1) (Combined 0 ''+'' 1)
     [\<lparr>selectors = [Single ''div'' T_element, Single ''main'' T_id], validSort = [T_element]\<rparr>,
      \<lparr>selectors = [Single ''table'' T_element], validSort = []\<rparr>,
      \<lparr>selectors = [Combined 0 ''+'' 1, Single ''x'' T_class], validSort = []\<rparr>])
     = Some (Inr (''div#main'' @ '' '' @ ''+'' @ '' '' @ ''table''))"
  using stringify_concatenates_textual_forms
    [where n = 1 and this = 2 and left = 0 and right = 1 and operator = "''+''"
       and ?s1.0 = "''div#main''" and ?s2.0 = "''table''"
       and tf = "\<lambda>cur. if cur = Single ''x'' T_class then ''.x'' else ''div#main + table''"
       and h = "[\<lparr>selectors = [Single ''div'' T_element, Single ''main'' T_id],
                   validSort = [T_element]\<rparr>,
                 \<lparr>selectors = [Single ''table'' T_element], validSort = []\<rparr>,
                 \<lparr>selectors = [Combined 0 ''+'' 1, Single ''x'' T_class], validSort = []\<rparr>]"]
  by (simp add: numeral_2_eq_2)

text \<open>The example of the source's documentation, on the store its calls build.\<close>

lemma documented_example:
  "fst (stringify 4 6
     [\<lparr>selectors = [Single ''div'' T_element, Single ''main'' T_id,
                     Single ''container'' T_class, Single ''draggable'' T_class],
        validSort = [T_element]\<rparr>,
      \<lparr>selectors = [Single ''table'' T_element, Single ''data'' T_id], validSort = [T_element]\<rparr>,
      \<lparr>selectors = [Single ''tr'' T_element, Single ''nth-of-type(even)'' T_pseudoClass],
        validSort = [T_element]\<rparr>,
      \<lparr>selectors = [Single ''td'' T_element, Single ''nth-of-type(even)'' T_pseudoClass],
        validSort = [T_element]\<rparr>,
      \<lparr>selectors = [Combined 2 '' '' 3], validSort = []\<rparr>,
      \<lparr>selectors = [Combined 1 ''~'' 4], validSort = []\<rparr>,
      \<lparr>selectors = [Combined 0 ''+'' 5], validSort = []\<rparr>])
   = Some (Inr ''div#main.container.draggable + table#data ~ tr:nth-of-type(even)   td:nth-of-type(even)'')"
  by (simp add: eval_nat_numeral)

subsection \<open>Rendering reads only\<close>

text \<open>On a ranked store a budget above the builder's rank is enough for a string.\<close>

lemma spec_stringify_returns:
  assumes "ranked rk h"
  shows "this < length h \<Longrightarrow> rk this < n \<Longrightarrow> \<exists>s. spec_stringify n h this = Some (Inr s)"
proof (induction n arbitrary: this)
  case 0
  then show ?case by simp
next
  case (Suc n)
  have ok: "list_all (fragment_ok rk h this) (selectors (h ! this))"
    using assms Suc.prems(1) by (simp add: ranked_def list_all_iff)
  have "\<exists>s. textual_form (spec_stringify n h) cur = Some (Inr s)"
    if "cur \<in> set (selectors (h ! this))" for cur
  proof (cases cur)
    case (Single token t)
    with ok that have "t \<noteq> T_combine" by (auto simp: list_all_iff)
    then show ?thesis using Single by (cases t) simp_all
  next
    case (Combined left operator right)
    with ok that have lr:
      "left < length h" "right < length h" "rk left < rk this" "rk right < rk this"
      by (auto simp: list_all_iff)
    with Suc.prems have "rk left < n" "rk right < n" by simp_all
    with lr Suc.IH obtain s1 s2 where
      "spec_stringify n h left = Some (Inr s1)" "spec_stringify n h right = Some (Inr s2)"
      by blast
    then show ?thesis using Combined by simp
  qed
  then obtain tf where tf: "\<forall>cur\<in>set (selectors (h ! this)).
      textual_form (spec_stringify n h) cur = Some (Inr (tf cur))"
    by metis
  have "map (textual_form (spec_stringify n h)) (selectors (h ! this))
        = map (\<lambda>s. Some (Inr s)) (map tf (selectors (h ! this)))"
    using tf by simp
  then show ?case using Suc.prems(1) by (simp add: foldl_join_strings del: map_map)
qed

text \<open>
  C4. \<open>stringify\<close> is a pure read: called twice in a row on the same builder it has the
  same outcome both times, and it leaves the store (so the builder's fragment sequence)
  as it was. On a ranked store, with a budget above the builder's rank, that outcome is
  a string. (A builder that was made to hold itself is never rendered, whatever the
  budget: both calls then fail alike.)
\<close>

theorem stringify_is_a_pure_read:
  "(case stringify n this h of
      (r1, h1) \<Rightarrow> (case stringify n this h1 of (r2, h2) \<Rightarrow> h1 = h \<and> r2 = r1 \<and> h2 = h))
   \<and> (ranked rk h \<and> this < length h \<and> rk this < n
        \<longrightarrow> (\<exists>s. stringify n this h = (Some (Inr s), h)))"
  using spec_stringify_returns [of rk h this n] by (auto simp add: stringify_spec)

theorem stringify_is_a_pure_read_witness:
  "(case stringify 3 2
           [\<lparr>selectors = [Single ''div'' T_element, Single ''main'' T_id],
              validSort = [T_element]\<rparr>,
            \<lparr>selectors = [Single ''table'' T_element], validSort = []\<rparr>,
            \<lparr>selectors = [Combined 0 ''+'' 1], validSort = []\<rparr>] of
      (r1, h1) \<Rightarrow>
        (case stringify 3 2 h1 of
           (r2, h2) \<Rightarrow>
             r1 = Some (Inr ''div#main + table'') \<and> r2 = Some (Inr ''div#main + table'')
             \<and> h1 = [\<lparr>selectors = [Single ''div'' T_element, Single ''main'' T_id],
                        validSort = [T_element]\<rparr>,
                      \<lparr>selectors = [Single ''table'' T_element], validSort = []\<rparr>,
                      \<lparr>selectors = [Combined 0 ''+'' 1], validSort = []\<rparr>]
             \<and> h2 = h1))
   \<and> ranked (\<lambda>b. b)
        [\<lparr>selectors = [Single ''div'' T_element, Single ''main'' T_id],
           validSort = [T_element]\<rparr>,
         \<lparr>selectors = [Single ''table'' T_element], validSort = []\<rparr>,
         \<lparr>selectors = [Combined 0 ''+'' 1], validSort = []\<rparr>]
   \<and> (2::nat) < length
        [\<lparr>selectors = [Single ''div'' T_element, Single ''main'' T_id],
           validSort = [T_element]\<rparr>,
         \<lparr>selectors = [Single ''table'' T_element], validSort = []\<rparr>,
         \<lparr>selectors = [Combined 0 ''+'' 1], validSort = []\<rparr>]
   \<and> (\<lambda>b. b) (2::nat) < (3::nat)"
  using stringify_is_a_pure_read [where n = 3 and this = 2 and rk = "\<lambda>b. b" and h =
          "[\<lparr>selectors = [Single ''div'' T_element, Single ''main'' T_id],
              validSort = [T_element]\<rparr>,
            \<lparr>selectors = [Single ''table'' T_element], validSort = []\<rparr>,
            \<lparr>selectors = [Combined 0 ''+'' 1], validSort = []\<rparr>]"]
  by (simp add: ranked_def eval_nat_numeral upt_rec)

text \<open>
  A builder that holds itself in a combinator fragment is not rendered to a string,
  whatever the budget.
\<close>

lemma join_string:
  "join r1 r2 = Some (Inr s) \<Longrightarrow> \<exists>s1 s2. r1 = Some (Inr s1) \<and> r2 = Some (Inr s2)"
  by (cases "(r1, r2)" rule: join.cases) simp_all

lemma foldl_join_string:
  "foldl join r rs = Some (Inr s) \<Longrightarrow> x \<in> set rs \<Longrightarrow> \<exists>t. x = Some (Inr t)"
proof (induction rs arbitrary: r)
  case Nil
  then show ?case by simp
next
  case (Cons y rs)
  show ?case
  proof (cases "x = y")
    case True
    obtain u where u: "join r y = Some (Inr u)"
    proof (cases "join r y")
      case None
      then show ?thesis using Cons.prems(1) by simp
    next
      case (Some v)
      then show ?thesis using Cons.prems(1) that by (cases v) simp_all
    qed
    then show ?thesis using True join_string by blast
  next
    case False
    then show ?thesis using Cons by auto
  qed
qed

lemma holds_itself_never_renders:
  assumes "this < length h"
    and "Combined left operator right \<in> set (selectors (h ! this))"
    and "left = this \<or> right = this"
  shows "fst (stringify n this h) \<noteq> Some (Inr s)"
proof (induction n arbitrary: s)
  case 0
  show ?case by simp
next
  case (Suc n)
  show ?case
  proof
    assume "fst (stringify (Suc n) this h) = Some (Inr s)"
    then have "foldl join (Some (Inr []))
        (map (textual_form (spec_stringify n h)) (selectors (h ! this))) = Some (Inr s)"
      using assms(1) by (simp add: stringify_spec)
    then obtain t where
      "textual_form (spec_stringify n h) (Combined left operator right) = Some (Inr t)"
      using assms(2) foldl_join_string by fastforce
    then have "\<exists>s1 s2. spec_stringify n h left = Some (Inr s1)
                     \<and> spec_stringify n h right = Some (Inr s2)"
      by (auto dest!: join_string)
    then obtain u where "spec_stringify n h this = Some (Inr u)"
      using assms(3) by auto
    then show False using Suc [of u] by (simp add: stringify_spec)
  qed
qed

section \<open>Building\<close>

subsection \<open>The order check\<close>

text \<open>
  C1. A call whose category ranks below a fragment already present must throw the order
  error. The code does not: \<open>validate\<close> fills \<open>validSort\<close> once and never again, so
  after \<open>id('a').pseudoClass('b')\<close> the cache holds \<open>id\<close> alone, and \<open>class('c')\<close> is
  accepted behind the pseudo-class. The builder renders \<open>#a:b.c\<close>.
\<close>

theorem stale_validSort_accepts_class_after_pseudoClass:
  "chain (chain (cssSelectorBuilder_id ''a'' []) (pseudoClass ''b'')) (class' ''c'')
     = (Inr 0, [\<lparr>selectors = [Single ''a'' T_id, Single ''b'' T_pseudoClass,
                               Single ''c'' T_class],
                  validSort = [T_id]\<rparr>])
   \<and> stringify 1 0 [\<lparr>selectors = [Single ''a'' T_id, Single ''b'' T_pseudoClass,
                                   Single ''c'' T_class],
                      validSort = [T_id]\<rparr>]
     = (Some (Inr ''#a:b.c''),
        [\<lparr>selectors = [Single ''a'' T_id, Single ''b'' T_pseudoClass, Single ''c'' T_class],
          validSort = [T_id]\<rparr>])"
  by (simp add: builder_defs)

text \<open>
  The check does catch the call that directly follows the first fragment, as in the
  specification's example \<open>class('a')\<close> then \<open>element('x')\<close>.
\<close>

lemma order_check_catches_the_next_call:
  "chain (cssSelectorBuilder_class ''a'' []) (element ''x'')
     = (Inl OrderError, [\<lparr>selectors = [Single ''a'' T_class], validSort = [T_class]\<rparr>])"
  by (simp add: builder_defs)

subsection \<open>What the order check compares with\<close>

lemma indexOf_ge [simp]: "- 1 \<le> indexOf xs x"
  by (induction xs) (simp_all add: Let_def)

lemma validate_eq:
  "validate t this =
     (if \<exists>val\<in>set (cache this). indexOf sortSelectors val > indexOf sortSelectors t
      then Inl OrderError else Inr (), this\<lparr>validSort := cache this\<rparr>)"
  by (auto simp add: validate_def cache_def list_ex_iff)

lemma cache_after_validate [simp]: "cache (this\<lparr>validSort := cache this\<rparr>) = cache this"
  by (simp add: cache_def)

lemma cache_Nil: "cache this = [] \<Longrightarrow> selectors this = []"
  by (auto simp add: cache_def split: if_splits)

lemma cache_push:
  "cache (this\<lparr>validSort := cache this, selectors := selectors this @ [cur]\<rparr>)
     = (if cache this = [] then [ftype cur] else cache this)"
  by (auto simp add: cache_def)

lemma cache_tryPush:
  "cache (this\<lparr>selectors := selectors this @ [cur]\<rparr>)
     = (if validSort this = [] then map ftype (selectors this) @ [ftype cur] else cache this)"
  by (auto simp add: cache_def)

lemma cache_below_new: "cache_below \<lparr>selectors = [], validSort = []\<rparr>"
  by (simp add: cache_below_def cache_def)

lemma cache_below_validate_push:
  assumes "cache_below this" and "t \<noteq> T_combine"
  shows "cache_below (snd (seq (validate t) (push (Single v t)) this))"
    and "cache_below (snd (seq (validate t) (tryPush (Single v t)) this))"
  using assms
  by (auto simp add: seq_def validate_eq push_def tryPush_def cache_below_def cache_push
        include'_iff dest: cache_Nil split: if_splits)

lemma cache_below_combine:
  assumes "cache_below this"
  shows "cache_below (snd (combine selector1 combinator selector2 this))"
  using assms
  by (auto simp add: combine_def tryPush_def cache_below_def cache_tryPush cache_def
        split: if_splits)

lemma cache_below_step: "cache_below this \<Longrightarrow> cache_below (snd (method_of op this))"
  by (cases op)
     (simp_all add: element_def id'_def class'_def attr_def pseudoClass_def pseudoElement_def
        cache_below_validate_push cache_below_combine)

lemma cache_below_run: "cache_below this \<Longrightarrow> cache_below (run ops this)"
  by (induction ops arbitrary: this) (simp_all add: cache_below_step)

text \<open>The order check lets a category pass that the builder already holds.\<close>

lemma present_passes:
  assumes "cache_below this" and "t \<in> ftype ` set (selectors this)" and "t \<noteq> T_combine"
  shows "validate t this = (Inr (), this\<lparr>validSort := cache this\<rparr>)"
  using assms by (fastforce simp add: validate_eq cache_below_def)

subsection \<open>The combinator\<close>

lemma tryPush_at_most_once:
  "at_most_once t this \<Longrightarrow> at_most_once t (snd (tryPush value this))"
  by (force simp add: tryPush_def at_most_once_def include'_iff image_iff filter_empty_conv)

lemma seq_tryPush_at_most_once:
  "at_most_once t this \<Longrightarrow> at_most_once t (snd (seq (validate u) (tryPush value) this))"
  using tryPush_at_most_once [of t "this\<lparr>validSort := cache this\<rparr>" "value"]
  by (simp add: seq_def validate_eq at_most_once_def split: if_splits)

lemma seq_push_at_most_once:
  "at_most_once t this \<Longrightarrow> t \<noteq> u
     \<Longrightarrow> at_most_once t (snd (seq (validate u) (push (Single token u)) this))"
  by (simp add: seq_def validate_eq push_def at_most_once_def split: if_splits)

lemma method_at_most_once:
  assumes "at_most_once t this" and "t \<in> {T_element, T_id, T_pseudoElement, T_combine}"
  shows "at_most_once t (snd (method_of op this))"
  using assms
  by (cases op)
     (auto simp add: element_def id'_def class'_def attr_def pseudoClass_def pseudoElement_def
        combine_def seq_tryPush_at_most_once seq_push_at_most_once tryPush_at_most_once)

lemma run_at_most_once:
  assumes "t \<in> {T_element, T_id, T_pseudoElement, T_combine}"
  shows "at_most_once t this \<Longrightarrow> at_most_once t (run ops this)"
  using assms by (induction ops arbitrary: this) (simp_all add: method_at_most_once)

text \<open>
  C10. \<open>combine\<close> called on a builder that already holds a combinator fragment throws the
  duplicate error and leaves the store as it was. That is its only check: on a builder
  without a combinator fragment it appends the fragment, whatever the builder holds
  and whatever the three arguments are. So a builder that a sequence of calls has made
  holds at most one combinator fragment.
\<close>

theorem combine_only_checks_for_a_combinator:
  assumes "this < length h"
  shows "(T_combine \<in> ftype ` set (selectors (h ! this))
            \<longrightarrow> call (combine selector1 combinator selector2) this h = (Inl DuplicateError, h))
       \<and> (T_combine \<notin> ftype ` set (selectors (h ! this))
            \<longrightarrow> call (combine selector1 combinator selector2) this h
                = (Inr this,
                   h[this := (h ! this)\<lparr>selectors :=
                        selectors (h ! this) @ [Combined selector1 combinator selector2]\<rparr>]))
       \<and> at_most_once T_combine (run ops \<lparr>selectors = [], validSort = []\<rparr>)"
proof -
  have "at_most_once T_combine (run ops \<lparr>selectors = [], validSort = []\<rparr>)"
    by (rule run_at_most_once) (simp_all add: at_most_once_def)
  then show ?thesis
    using assms by (simp add: call_def combine_def tryPush_def include'_iff)
qed

theorem combine_only_checks_for_a_combinator_witness:
  "call (combine 3 ''>'' 4) 0
      [\<lparr>selectors = [Single ''p'' T_pseudoElement, Combined 1 ''+'' 2], validSort = []\<rparr>]
     = (Inl DuplicateError,
        [\<lparr>selectors = [Single ''p'' T_pseudoElement, Combined 1 ''+'' 2], validSort = []\<rparr>])
   \<and> call (combine 7 ''no combinator'' 0) 0
      [\<lparr>selectors = [Single ''p'' T_pseudoElement], validSort = [T_pseudoElement]\<rparr>]
     = (Inr 0,
        [\<lparr>selectors = [Single ''p'' T_pseudoElement, Combined 7 ''no combinator'' 0],
          validSort = [T_pseudoElement]\<rparr>])
   \<and> run [Op_pseudoElement ''p'', Op_combine 1 ''+'' 2, Op_combine 3 ''>'' 4]
        \<lparr>selectors = [], validSort = []\<rparr>
     = \<lparr>selectors = [Single ''p'' T_pseudoElement, Combined 1 ''+'' 2], validSort = []\<rparr>"
  using combine_only_checks_for_a_combinator
          [of 0 "[\<lparr>selectors = [Single ''p'' T_pseudoElement, Combined 1 ''+'' 2],
                    validSort = []\<rparr>]" 3 "''>''" 4]
        combine_only_checks_for_a_combinator
          [of 0 "[\<lparr>selectors = [Single ''p'' T_pseudoElement], validSort = [T_pseudoElement]\<rparr>]"
              7 "''no combinator''" 0]
  by (simp add: builder_defs)

subsection \<open>Repeating a category\<close>

text \<open>
  C2. On every builder that a sequence of calls has made: \<open>element\<close>, \<open>id\<close> and
  \<open>pseudoElement\<close> throw the duplicate error when the builder already holds a fragment
  of that category, and \<open>class\<close>, \<open>attr\<close> and \<open>pseudoClass\<close> return and append theirs
  when it already holds one. \<open>id('a').id('b')\<close> throws the duplicate error, and
  \<open>class('a').class('b')\<close> returns a builder that renders \<open>.a.b\<close>.
\<close>

theorem repeating_a_category:
  assumes "this = run ops \<lparr>selectors = [], validSort = []\<rparr>"
  shows "(T_element \<in> ftype ` set (selectors this)
            \<longrightarrow> fst (element value this) = Inl DuplicateError)
       \<and> (T_id \<in> ftype ` set (selectors this)
            \<longrightarrow> fst (id' value this) = Inl DuplicateError)
       \<and> (T_pseudoElement \<in> ftype ` set (selectors this)
            \<longrightarrow> fst (pseudoElement value this) = Inl DuplicateError)
       \<and> (T_class \<in> ftype ` set (selectors this)
            \<longrightarrow> fst (class' value this) = Inr ()
                \<and> selectors (snd (class' value this))
                    = selectors this @ [Single value T_class])
       \<and> (T_attr \<in> ftype ` set (selectors this)
            \<longrightarrow> fst (attr value this) = Inr ()
                \<and> selectors (snd (attr value this))
                    = selectors this @ [Single value T_attr])
       \<and> (T_pseudoClass \<in> ftype ` set (selectors this)
            \<longrightarrow> fst (pseudoClass value this) = Inr ()
                \<and> selectors (snd (pseudoClass value this))
                    = selectors this @ [Single value T_pseudoClass])
       \<and> chain (cssSelectorBuilder_id ''a'' []) (id' ''b'')
           = (Inl DuplicateError, [\<lparr>selectors = [Single ''a'' T_id], validSort = [T_id]\<rparr>])
       \<and> chain (cssSelectorBuilder_class ''a'' []) (class' ''b'')
           = (Inr 0, [\<lparr>selectors = [Single ''a'' T_class, Single ''b'' T_class],
                        validSort = [T_class]\<rparr>])
       \<and> fst (stringify 1 0 [\<lparr>selectors = [Single ''a'' T_class, Single ''b'' T_class],
                                validSort = [T_class]\<rparr>])
           = Some (Inr ''.a.b'')"
proof -
  have inv: "cache_below this"
    using assms cache_below_new by (simp add: cache_below_run)
  have pass: "validate t this = (Inr (), this\<lparr>validSort := cache this\<rparr>)"
    if "t \<in> ftype ` set (selectors this)" "t \<noteq> T_combine" for t
    using inv that by (rule present_passes)
  show ?thesis
  proof (intro conjI impI)
    assume "T_element \<in> ftype ` set (selectors this)"
    then show "fst (element value this) = Inl DuplicateError"
      using pass [of T_element] by (simp add: element_def seq_def tryPush_def include'_iff)
  next
    assume "T_id \<in> ftype ` set (selectors this)"
    then show "fst (id' value this) = Inl DuplicateError"
      using pass [of T_id] by (simp add: id'_def seq_def tryPush_def include'_iff)
  next
    assume "T_pseudoElement \<in> ftype ` set (selectors this)"
    then show "fst (pseudoElement value this) = Inl DuplicateError"
      using pass [of T_pseudoElement]
      by (simp add: pseudoElement_def seq_def tryPush_def include'_iff)
  next
    assume p: "T_class \<in> ftype ` set (selectors this)"
    then show "fst (class' value this) = Inr ()"
      and "selectors (snd (class' value this)) = selectors this @ [Single value T_class]"
      using pass [of T_class] by (simp_all add: class'_def seq_def push_def)
  next
    assume p: "T_attr \<in> ftype ` set (selectors this)"
    then show "fst (attr value this) = Inr ()"
      and "selectors (snd (attr value this)) = selectors this @ [Single value T_attr]"
      using pass [of T_attr] by (simp_all add: attr_def seq_def push_def)
  next
    assume p: "T_pseudoClass \<in> ftype ` set (selectors this)"
    then show "fst (pseudoClass value this) = Inr ()"
      and "selectors (snd (pseudoClass value this))
             = selectors this @ [Single value T_pseudoClass]"
      using pass [of T_pseudoClass] by (simp_all add: pseudoClass_def seq_def push_def)
  qed (simp_all add: builder_defs)
qed

theorem repeating_a_category_witness:
  "run [Op_element ''div'', Op_id ''main'', Op_class ''c'', Op_attr ''href'',
        Op_pseudoClass ''hover'', Op_pseudoElement ''after'']
       \<lparr>selectors = [], validSort = []\<rparr>
     = \<lparr>selectors = [Single ''div'' T_element, Single ''main'' T_id, Single ''c'' T_class,
                      Single ''href'' T_attr, Single ''hover'' T_pseudoClass,
                      Single ''after'' T_pseudoElement],
         validSort = [T_element]\<rparr>
   \<and> fst (element ''x''
        \<lparr>selectors = [Single ''div'' T_element, Single ''main'' T_id, Single ''c'' T_class,
                      Single ''href'' T_attr, Single ''hover'' T_pseudoClass,
                      Single ''after'' T_pseudoElement],
         validSort = [T_element]\<rparr>) = Inl DuplicateError
   \<and> fst (pseudoElement ''x''
        \<lparr>selectors = [Single ''div'' T_element, Single ''main'' T_id, Single ''c'' T_class,
                      Single ''href'' T_attr, Single ''hover'' T_pseudoClass,
                      Single ''after'' T_pseudoElement],
         validSort = [T_element]\<rparr>) = Inl DuplicateError
   \<and> fst (class' ''x''
        \<lparr>selectors = [Single ''div'' T_element, Single ''main'' T_id, Single ''c'' T_class,
                      Single ''href'' T_attr, Single ''hover'' T_pseudoClass,
                      Single ''after'' T_pseudoElement],
         validSort = [T_element]\<rparr>) = Inr ()"
proof -
  have r: "\<lparr>selectors = [Single ''div'' T_element, Single ''main'' T_id, Single ''c'' T_class,
                      Single ''href'' T_attr, Single ''hover'' T_pseudoClass,
                      Single ''after'' T_pseudoElement],
         validSort = [T_element]\<rparr>
      = run [Op_element ''div'', Op_id ''main'', Op_class ''c'', Op_attr ''href'',
        Op_pseudoClass ''hover'', Op_pseudoElement ''after'']
       \<lparr>selectors = [], validSort = []\<rparr>"
    by (simp add: builder_defs)
  show ?thesis
    using repeating_a_category [OF r, of "''x''"] r [symmetric] by simp
qed

subsection \<open>Calls that throw\<close>

lemma validate_selectors [simp]: "selectors (snd (validate t this)) = selectors this"
  by (simp add: validate_eq)

lemma throws_keeps_selectors:
  "fst (method_of op this) = Inl e \<Longrightarrow> selectors (snd (method_of op this)) = selectors this"
  by (cases op)
     (auto simp add: element_def id'_def class'_def attr_def pseudoClass_def pseudoElement_def
        combine_def seq_def tryPush_def push_def validate_eq split: if_splits)

text \<open>
  Two stores render a builder alike when they agree on the fragment sequences of a set
  of builders that holds the builder and is closed under the combinator fragments.
\<close>

lemma spec_stringify_agree:
  assumes dom: "\<And>x. x \<in> R \<Longrightarrow> x < length h' \<longleftrightarrow> x < length h"
    and same: "\<And>x. x \<in> R \<Longrightarrow> x < length h \<Longrightarrow> selectors (h' ! x) = selectors (h ! x)"
    and closed: "\<And>x l c r. x \<in> R \<Longrightarrow> x < length h
                  \<Longrightarrow> Combined l c r \<in> set (selectors (h ! x)) \<Longrightarrow> l \<in> R \<and> r \<in> R"
  shows "b \<in> R \<Longrightarrow> spec_stringify n h' b = spec_stringify n h b"
proof (induction n arbitrary: b)
  case 0
  show ?case by simp
next
  case (Suc n)
  show ?case
  proof (cases "b < length h")
    case False
    then show ?thesis using dom [OF Suc.prems] by simp
  next
    case True
    have "textual_form (spec_stringify n h') cur = textual_form (spec_stringify n h) cur"
      if "cur \<in> set (selectors (h ! b))" for cur
    proof (cases cur)
      case (Single token t)
      then show ?thesis by (cases t) simp_all
    next
      case (Combined l c r)
      with that closed [OF Suc.prems True] have "l \<in> R" "r \<in> R" by auto
      then show ?thesis using Combined Suc.IH by simp
    qed
    then show ?thesis
      using True dom [OF Suc.prems] same [OF Suc.prems True] by (simp cong: map_cong)
  qed
qed

lemma spec_stringify_selectors:
  assumes "map selectors h' = map selectors h"
  shows "spec_stringify n h' b = spec_stringify n h b"
proof -
  have len: "length h' = length h" using assms by (metis length_map)
  have "selectors (h' ! x) = selectors (h ! x)" if "x < length h" for x
    using that assms len by (metis nth_map)
  then show ?thesis
    using len by (intro spec_stringify_agree [where R = UNIV]) simp_all
qed

lemma call_throws_selectors:
  assumes "call (method_of op) this h = (Inl e, h')"
  shows "map selectors h' = map selectors h"
proof (cases "this < length h")
  case False
  then show ?thesis using assms by (simp add: call_def)
next
  case True
  obtain r s where m: "method_of op (h ! this) = (r, s)" by (cases "method_of op (h ! this)")
  with assms True have r: "r = Inl e" and h': "h' = h[this := s]"
    by (auto simp add: call_def split: sum.splits)
  from m r have "selectors s = selectors (h ! this)"
    using throws_keeps_selectors [of op "h ! this" e] by simp
  then show ?thesis using h' True by (simp add: map_update list_update_same_conv)
qed

text \<open>
  C5. When one of the seven building calls throws, the fragment sequence of the builder
  (and of every builder of the store) is what it was before the call, and a \<open>stringify\<close>
  after it has the outcome it would have had before. (The call may have filled
  \<open>validSort\<close>: the witness is such a call.)
\<close>

theorem failed_call_keeps_the_fragments:
  assumes "call (method_of op) this h = (Inl e, h')"
  shows "selectors (h' ! this) = selectors (h ! this)
         \<and> map selectors h' = map selectors h
         \<and> fst (stringify n this h') = fst (stringify n this h)"
proof -
  have sel: "map selectors h' = map selectors h"
    using assms by (rule call_throws_selectors)
  have "selectors (h' ! this) = selectors (h ! this)"
  proof (cases "this < length h")
    case True
    then show ?thesis using sel by (metis length_map nth_map)
  next
    case False
    then show ?thesis using assms by (simp add: call_def)
  qed
  moreover have "spec_stringify n h' this = spec_stringify n h this"
    using sel by (rule spec_stringify_selectors)
  ultimately show ?thesis using sel by (simp add: stringify_spec)
qed

theorem failed_call_keeps_the_fragments_witness:
  "call (method_of (Op_element ''x'')) 0
        [\<lparr>selectors = [Single ''a'' T_class], validSort = []\<rparr>]
     = (Inl OrderError, [\<lparr>selectors = [Single ''a'' T_class], validSort = [T_class]\<rparr>])
   \<and> selectors ([\<lparr>selectors = [Single ''a'' T_class], validSort = [T_class]\<rparr>] ! 0)
     = selectors ([\<lparr>selectors = [Single ''a'' T_class], validSort = []\<rparr>] ! 0)
   \<and> fst (stringify 1 0 [\<lparr>selectors = [Single ''a'' T_class], validSort = [T_class]\<rparr>])
     = Some (Inr ''.a'')
   \<and> fst (stringify 1 0 [\<lparr>selectors = [Single ''a'' T_class], validSort = []\<rparr>])
     = Some (Inr ''.a'')"
proof -
  have c: "call (method_of (Op_element ''x'')) 0
        [\<lparr>selectors = [Single ''a'' T_class], validSort = []\<rparr>]
     = (Inl OrderError, [\<lparr>selectors = [Single ''a'' T_class], validSort = [T_class]\<rparr>])"
    by (simp add: builder_defs)
  show ?thesis
    using c failed_call_keeps_the_fragments [OF c, of 1] by simp
qed

subsection \<open>The facade and chaining\<close>

text \<open>
  C8. Each of the seven entry points of the facade returns, without throwing, a builder
  that the store did not hold, leaves the builders of the store as they were, and the
  new builder holds exactly the one fragment of the category called. A building call
  that returns returns the builder it was called on, and has changed that builder only;
  so the calls of a chain all work on the one builder:
  \<open>id('main').class('container').class('editable')\<close> is one new builder with the three
  fragments.
\<close>

theorem facade_allocates_and_methods_return_this:
  "cssSelectorBuilder_element token h
     = (Inr (length h), h @ [\<lparr>selectors = [Single token T_element], validSort = []\<rparr>])
   \<and> cssSelectorBuilder_id token h
     = (Inr (length h), h @ [\<lparr>selectors = [Single token T_id], validSort = []\<rparr>])
   \<and> cssSelectorBuilder_class token h
     = (Inr (length h), h @ [\<lparr>selectors = [Single token T_class], validSort = []\<rparr>])
   \<and> cssSelectorBuilder_attr token h
     = (Inr (length h), h @ [\<lparr>selectors = [Single token T_attr], validSort = []\<rparr>])
   \<and> cssSelectorBuilder_pseudoClass token h
     = (Inr (length h), h @ [\<lparr>selectors = [Single token T_pseudoClass], validSort = []\<rparr>])
   \<and> cssSelectorBuilder_pseudoElement token h
     = (Inr (length h), h @ [\<lparr>selectors = [Single token T_pseudoElement], validSort = []\<rparr>])
   \<and> cssSelectorBuilder_combine selector1 combinator selector2 h
     = (Inr (length h),
        h @ [\<lparr>selectors = [Combined selector1 combinator selector2], validSort = []\<rparr>])
   \<and> (call (method_of op) this h = (Inr b, h')
        \<longrightarrow> b = this \<and> this < length h \<and> length h' = length h
            \<and> h' ! this = snd (method_of op (h ! this))
            \<and> (\<forall>a. a \<noteq> this \<longrightarrow> h' ! a = h ! a))
   \<and> chain (chain (cssSelectorBuilder_id ''main'' h) (class' ''container'')) (class' ''editable'')
     = (Inr (length h),
        h @ [\<lparr>selectors = [Single ''main'' T_id, Single ''container'' T_class,
                            Single ''editable'' T_class],
               validSort = [T_id]\<rparr>])"
proof (intro conjI impI)
  assume c: "call (method_of op) this h = (Inr b, h')"
  then show "b = this" "this < length h" "length h' = length h"
    "h' ! this = snd (method_of op (h ! this))" "\<forall>a. a \<noteq> this \<longrightarrow> h' ! a = h ! a"
    by (auto simp add: call_def split: if_splits prod.splits sum.splits)
qed (simp_all add: builder_defs)

theorem facade_allocates_and_methods_return_this_witness:
  "call (method_of (Op_attr ''href'')) 1
      [\<lparr>selectors = [Single ''p'' T_element], validSort = []\<rparr>,
       \<lparr>selectors = [Single ''a'' T_element], validSort = []\<rparr>]
     = (Inr 1, [\<lparr>selectors = [Single ''p'' T_element], validSort = []\<rparr>,
                \<lparr>selectors = [Single ''a'' T_element, Single ''href'' T_attr],
                  validSort = [T_element]\<rparr>])
   \<and> cssSelectorBuilder_element ''td''
        [\<lparr>selectors = [Single ''p'' T_element], validSort = []\<rparr>,
         \<lparr>selectors = [Single ''a'' T_element], validSort = []\<rparr>]
     = (Inr 2, [\<lparr>selectors = [Single ''p'' T_element], validSort = []\<rparr>,
                \<lparr>selectors = [Single ''a'' T_element], validSort = []\<rparr>,
                \<lparr>selectors = [Single ''td'' T_element], validSort = []\<rparr>])"
proof -
  have c: "call (method_of (Op_attr ''href'')) 1
      [\<lparr>selectors = [Single ''p'' T_element], validSort = []\<rparr>,
       \<lparr>selectors = [Single ''a'' T_element], validSort = []\<rparr>]
     = (Inr 1, [\<lparr>selectors = [Single ''p'' T_element], validSort = []\<rparr>,
                \<lparr>selectors = [Single ''a'' T_element, Single ''href'' T_attr],
                  validSort = [T_element]\<rparr>])"
    by (simp add: builder_defs)
  show ?thesis
    using c facade_allocates_and_methods_return_this
      [where token = "''td''" and op = "Op_attr ''href''" and this = 1 and b = 1
         and h = "[\<lparr>selectors = [Single ''p'' T_element], validSort = []\<rparr>,
                   \<lparr>selectors = [Single ''a'' T_element], validSort = []\<rparr>]"
         and h' = "[\<lparr>selectors = [Single ''p'' T_element], validSort = []\<rparr>,
                    \<lparr>selectors = [Single ''a'' T_element, Single ''href'' T_attr],
                      validSort = [T_element]\<rparr>]"]
    by simp
qed

subsection \<open>The stores that the facade builds are ranked\<close>

text \<open>
  The empty store is ranked; allocating a builder, a token call on any builder, and the
  facade's \<open>combine\<close> of two builders of the store keep it ranked, by the addresses.
\<close>

lemma ranked_iff:
  "ranked rk h \<longleftrightarrow> (\<forall>b<length h. \<forall>cur\<in>set (selectors (h ! b)). fragment_ok rk h b cur)"
  by (auto simp add: ranked_def list_all_iff)

lemma ranked_empty: "ranked rk []"
  by (simp add: ranked_def)

lemma fragment_ok_length:
  "length h' = length h \<Longrightarrow> fragment_ok rk h' b cur = fragment_ok rk h b cur"
  by (cases cur) simp_all

lemma fragment_ok_append:
  "fragment_ok rk h b cur \<Longrightarrow> fragment_ok rk (h @ [this]) b cur"
  by (cases cur) auto

lemma ranked_new_Selector:
  assumes "ranked rk h"
  shows "ranked rk (snd (new_Selector h))"
  unfolding ranked_iff
proof (intro allI impI ballI)
  fix b cur
  assume b: "b < length (snd (new_Selector h))"
    and cur: "cur \<in> set (selectors (snd (new_Selector h) ! b))"
  then have "b < length h" and "cur \<in> set (selectors (h ! b))"
    by (auto simp add: new_Selector_def nth_append less_Suc_eq split: if_splits)
  then have "fragment_ok rk h b cur" using assms by (simp add: ranked_iff)
  then show "fragment_ok rk (snd (new_Selector h)) b cur"
    by (simp add: new_Selector_def fragment_ok_append)
qed

lemma token_call_selectors:
  assumes "is_token_call op"
  shows "selectors (snd (method_of op this)) = selectors this
       \<or> (\<exists>token t. t \<noteq> T_combine
             \<and> selectors (snd (method_of op this)) = selectors this @ [Single token t])"
  using assms
  by (cases op)
     (auto simp add: element_def id'_def class'_def attr_def pseudoClass_def pseudoElement_def
        seq_def tryPush_def push_def validate_eq split: if_splits)

lemma ranked_update:
  assumes r: "ranked rk h" and b: "this < length h"
    and ok: "\<And>cur. cur \<in> set (selectors s) \<Longrightarrow> fragment_ok rk h this cur"
  shows "ranked rk (h[this := s])"
  unfolding ranked_iff
proof (intro allI impI ballI)
  fix b cur
  assume "b < length (h[this := s])" and cur: "cur \<in> set (selectors (h[this := s] ! b))"
  then have bl: "b < length h" by simp
  have "fragment_ok rk h b cur"
  proof (cases "b = this")
    case True
    then show ?thesis using cur bl ok by simp
  next
    case False
    then show ?thesis using cur bl r by (simp add: ranked_iff)
  qed
  then show "fragment_ok rk (h[this := s]) b cur"
    using fragment_ok_length [of "h[this := s]" h rk b cur] by simp
qed

lemma ranked_call_token:
  assumes "ranked rk h" and "is_token_call op"
  shows "ranked rk (snd (call (method_of op) this h))"
proof (cases "this < length h")
  case False
  then show ?thesis using assms by (simp add: call_def)
next
  case True
  have old: "fragment_ok rk h this cur" if "cur \<in> set (selectors (h ! this))" for cur
    using assms(1) True that by (simp add: ranked_iff)
  have "fragment_ok rk h this cur" if "cur \<in> set (selectors (snd (method_of op (h ! this))))"
    for cur
    using token_call_selectors [OF assms(2), of "h ! this"] that old by auto
  then have "ranked rk (h[this := snd (method_of op (h ! this))])"
    using assms(1) True by (intro ranked_update)
  moreover have "snd (call (method_of op) this h) = h[this := snd (method_of op (h ! this))]"
    using True by (cases "method_of op (h ! this)") (simp add: call_def split: sum.splits)
  ultimately show ?thesis by simp
qed

lemma ranked_facade_token:
  assumes "ranked rk h" and "is_token_call op"
  shows "ranked rk (snd (on_new (method_of op) h))"
  using ranked_call_token [OF ranked_new_Selector [OF assms(1)] assms(2), of "length h"]
  by (simp add: on_new_def new_Selector_def)

lemma ranked_call_combine_new:
  assumes "ranked (\<lambda>b. b) h" and "selector1 < length h" and "selector2 < length h"
  shows "ranked (\<lambda>b. b) (snd (cssSelectorBuilder_combine selector1 combinator selector2 h))"
proof -
  have "ranked (\<lambda>b. b) (h @ [\<lparr>selectors = [], validSort = []\<rparr>])"
    using assms(1) ranked_new_Selector [of "\<lambda>b. b" h] by (simp add: new_Selector_def)
  then have "ranked (\<lambda>b. b)
     ((h @ [\<lparr>selectors = [], validSort = []\<rparr>])
        [length h := \<lparr>selectors = [Combined selector1 combinator selector2], validSort = []\<rparr>])"
    using assms(2,3) by (intro ranked_update) auto
  then show ?thesis
    by (simp add: builder_defs)
qed

subsection \<open>The builders that a combinator joins\<close>

lemma spec_stringify_unreached:
  assumes len: "length h' = length h"
    and others: "\<And>x. x \<noteq> this \<Longrightarrow> x < length h \<Longrightarrow> h' ! x = h ! x"
    and unreached: "this \<notin> reach h b"
  shows "spec_stringify n h' b = spec_stringify n h b"
proof (rule spec_stringify_agree [where R = "reach h b"])
  fix x show "x < length h' \<longleftrightarrow> x < length h" by (simp add: len)
next
  fix x assume "x \<in> reach h b" and "x < length h"
  with unreached have "x \<noteq> this" by auto
  then show "selectors (h' ! x) = selectors (h ! x)"
    using others \<open>x < length h\<close> by simp
next
  fix x l c r
  assume "x \<in> reach h b" and "x < length h" and "Combined l c r \<in> set (selectors (h ! x))"
  then show "l \<in> reach h b \<and> r \<in> reach h b"
    by (blast intro: reach.left reach.right)
next
  show "b \<in> reach h b" by (rule reach.here)
qed

lemma call_frame:
  assumes "call m this h = (res, h')"
  shows "length h' = length h" and "x \<noteq> this \<Longrightarrow> h' ! x = h ! x"
  using assms by (auto simp add: call_def split: if_splits prod.splits sum.splits)

text \<open>
  The facade's \<open>combine\<close> works on a new builder, which no builder of a ranked store
  joins: the two arguments render as they did.
\<close>

lemma spec_stringify_new_Selector:
  assumes "ranked rk h" and "b < length h"
  shows "spec_stringify n (h @ [this]) b = spec_stringify n h b"
proof (rule spec_stringify_agree [where R = "{..<length h}"])
  fix x l c r
  assume "x \<in> {..<length h}" and x: "x < length h"
    and cur: "Combined l c r \<in> set (selectors (h ! x))"
  have "\<forall>cur\<in>set (selectors (h ! x)). fragment_ok rk h x cur"
    using assms(1) x by (simp add: ranked_iff)
  with cur have "fragment_ok rk h x (Combined l c r)" by blast
  then show "l \<in> {..<length h} \<and> r \<in> {..<length h}" by simp
qed (use assms(2) in \<open>simp_all add: nth_append\<close>)

lemma facade_combine_leaves_arguments:
  assumes "ranked rk h" and "left < length h" and "right < length h"
  shows "cssSelectorBuilder_combine left operator right h
           = (Inr (length h), h @ [\<lparr>selectors = [Combined left operator right], validSort = []\<rparr>])"
    and "fst (stringify k left (snd (cssSelectorBuilder_combine left operator right h)))
           = fst (stringify k left h)"
    and "fst (stringify k right (snd (cssSelectorBuilder_combine left operator right h)))
           = fst (stringify k right h)"
proof -
  show c: "cssSelectorBuilder_combine left operator right h
           = (Inr (length h), h @ [\<lparr>selectors = [Combined left operator right], validSort = []\<rparr>])"
    by (simp add: builder_defs)
  show "fst (stringify k left (snd (cssSelectorBuilder_combine left operator right h)))
           = fst (stringify k left h)"
    using assms(1,2) by (simp add: c stringify_spec spec_stringify_new_Selector)
  show "fst (stringify k right (snd (cssSelectorBuilder_combine left operator right h)))
           = fst (stringify k right h)"
    using assms(1,3) by (simp add: c stringify_spec spec_stringify_new_Selector)
qed

text \<open>
  C9, as the code has it. \<open>combine(left, operator, right)\<close> writes to the builder it is
  called on and to no other, and a later \<open>stringify\<close> writes nothing. So \<open>left\<close> and
  \<open>right\<close> are as they were when they are other builders than the one called on, and
  they render as before when rendering them does not come to the builder called on.
\<close>

theorem combine_leaves_other_builders:
  assumes c: "call (combine left operator right) this h = (res, h1)"
    and s: "stringify n this h1 = (str, h2)"
  shows "(left \<noteq> this \<longrightarrow> h2 ! left = h ! left)
       \<and> (right \<noteq> this \<longrightarrow> h2 ! right = h ! right)
       \<and> (this \<notin> reach h left \<longrightarrow> fst (stringify k left h2) = fst (stringify k left h))
       \<and> (this \<notin> reach h right \<longrightarrow> fst (stringify k right h2) = fst (stringify k right h))"
proof -
  have h2: "h2 = h1" using s by (simp add: stringify_spec)
  have len: "length h1 = length h" using c by (rule call_frame)
  have others: "h1 ! x = h ! x" if "x \<noteq> this" for x using c that by (rule call_frame)
  have "spec_stringify k h1 b = spec_stringify k h b" if "this \<notin> reach h b" for b
    using len others that by (intro spec_stringify_unreached [where this = this]) simp_all
  then show ?thesis using h2 others by (simp add: stringify_spec)
qed

theorem combine_leaves_other_builders_witness:
  "call (combine 0 ''+'' 1) 2
        [\<lparr>selectors = [Single ''div'' T_element, Single ''main'' T_id],
           validSort = [T_element]\<rparr>,
         \<lparr>selectors = [Single ''table'' T_element], validSort = []\<rparr>,
         \<lparr>selectors = [], validSort = []\<rparr>]
     = (Inr 2,
        [\<lparr>selectors = [Single ''div'' T_element, Single ''main'' T_id],
           validSort = [T_element]\<rparr>,
         \<lparr>selectors = [Single ''table'' T_element], validSort = []\<rparr>,
         \<lparr>selectors = [Combined 0 ''+'' 1], validSort = []\<rparr>])
   \<and> stringify 2 2
        [\<lparr>selectors = [Single ''div'' T_element, Single ''main'' T_id],
           validSort = [T_element]\<rparr>,
         \<lparr>selectors = [Single ''table'' T_element], validSort = []\<rparr>,
         \<lparr>selectors = [Combined 0 ''+'' 1], validSort = []\<rparr>]
     = (Some (Inr ''div#main + table''),
        [\<lparr>selectors = [Single ''div'' T_element, Single ''main'' T_id],
           validSort = [T_element]\<rparr>,
         \<lparr>selectors = [Single ''table'' T_element], validSort = []\<rparr>,
         \<lparr>selectors = [Combined 0 ''+'' 1], validSort = []\<rparr>])
   \<and> 2 \<notin> reach
        [\<lparr>selectors = [Single ''div'' T_element, Single ''main'' T_id],
           validSort = [T_element]\<rparr>,
         \<lparr>selectors = [Single ''table'' T_element], validSort = []\<rparr>,
         \<lparr>selectors = [], validSort = []\<rparr>] 0
   \<and> 2 \<notin> reach
        [\<lparr>selectors = [Single ''div'' T_element, Single ''main'' T_id],
           validSort = [T_element]\<rparr>,
         \<lparr>selectors = [Single ''table'' T_element], validSort = []\<rparr>,
         \<lparr>selectors = [], validSort = []\<rparr>] 1
   \<and> fst (stringify 1 0
        [\<lparr>selectors = [Single ''div'' T_element, Single ''main'' T_id],
           validSort = [T_element]\<rparr>,
         \<lparr>selectors = [Single ''table'' T_element], validSort = []\<rparr>,
         \<lparr>selectors = [Combined 0 ''+'' 1], validSort = []\<rparr>])
     = Some (Inr ''div#main'')
   \<and> fst (stringify 1 1
        [\<lparr>selectors = [Single ''div'' T_element, Single ''main'' T_id],
           validSort = [T_element]\<rparr>,
         \<lparr>selectors = [Single ''table'' T_element], validSort = []\<rparr>,
         \<lparr>selectors = [Combined 0 ''+'' 1], validSort = []\<rparr>])
     = Some (Inr ''table'')"
proof -
  define h where "h = [\<lparr>selectors = [Single ''div'' T_element, Single ''main'' T_id],
           validSort = [T_element]\<rparr>,
         \<lparr>selectors = [Single ''table'' T_element], validSort = []\<rparr>,
         \<lparr>selectors = [], validSort = []\<rparr>]"
  define h1 where "h1 = [\<lparr>selectors = [Single ''div'' T_element, Single ''main'' T_id],
           validSort = [T_element]\<rparr>,
         \<lparr>selectors = [Single ''table'' T_element], validSort = []\<rparr>,
         \<lparr>selectors = [Combined 0 ''+'' 1], validSort = []\<rparr>]"
  have c: "call (combine 0 ''+'' 1) 2 h = (Inr 2, h1)"
    by (simp add: h_def h1_def builder_defs numeral_2_eq_2)
  have s: "stringify 2 2 h1 = (Some (Inr ''div#main + table''), h1)"
    by (simp add: h1_def numeral_2_eq_2)
  have only0: "x = 0" if "x \<in> reach h 0" for x
    using that by (induction rule: reach.induct) (auto simp add: h_def)
  have r0: "2 \<notin> reach h 0" using only0 [of 2] by auto
  have only1: "x = 1" if "x \<in> reach h 1" for x
    using that by (induction rule: reach.induct) (auto simp add: h_def)
  have r1: "2 \<notin> reach h 1" using only1 [of 2] by auto
  have before: "fst (stringify 1 0 h) = Some (Inr ''div#main'')"
    "fst (stringify 1 1 h) = Some (Inr ''table'')"
    by (simp_all add: h_def)
  show ?thesis
    using combine_leaves_other_builders [OF c s, of 1] c s r0 r1 before
    unfolding h_def h1_def by simp
qed

text \<open>
  C9 as stated fails when a builder is combined with itself, \<open>b.combine(b, '+', b)\<close>:
  the fragment sequence of the argument \<open>b\<close> has grown, and \<open>b\<close>, which rendered \<open>a\<close>,
  now holds itself and is not rendered within the budget. It also fails when the
  builder called on is one that \<open>left\<close> joins: with \<open>l = combine(a, '+', x)\<close>, the call
  \<open>a.combine(l, '>', x)\<close> leaves the fragments of \<open>l\<close> alone, but \<open>l\<close>, which rendered
  \<open>a + x\<close>, is no longer rendered.
\<close>

theorem combine_with_itself_counterexample:
  "call (combine 0 ''+'' 0) 0 [\<lparr>selectors = [Single ''a'' T_element], validSort = []\<rparr>]
     = (Inr 0, [\<lparr>selectors = [Single ''a'' T_element, Combined 0 ''+'' 0], validSort = []\<rparr>])
   \<and> selectors ([\<lparr>selectors = [Single ''a'' T_element, Combined 0 ''+'' 0],
                    validSort = []\<rparr>] ! 0)
     \<noteq> selectors ([\<lparr>selectors = [Single ''a'' T_element], validSort = []\<rparr>] ! 0)
   \<and> fst (stringify 3 0 [\<lparr>selectors = [Single ''a'' T_element], validSort = []\<rparr>])
     = Some (Inr ''a'')
   \<and> fst (stringify 3 0 [\<lparr>selectors = [Single ''a'' T_element, Combined 0 ''+'' 0],
                            validSort = []\<rparr>])
     = None
   \<and> call (combine 2 ''>'' 1) 0
        [\<lparr>selectors = [Single ''a'' T_element], validSort = []\<rparr>,
         \<lparr>selectors = [Single ''x'' T_element], validSort = []\<rparr>,
         \<lparr>selectors = [Combined 0 ''+'' 1], validSort = []\<rparr>]
     = (Inr 0,
        [\<lparr>selectors = [Single ''a'' T_element, Combined 2 ''>'' 1], validSort = []\<rparr>,
         \<lparr>selectors = [Single ''x'' T_element], validSort = []\<rparr>,
         \<lparr>selectors = [Combined 0 ''+'' 1], validSort = []\<rparr>])
   \<and> fst (stringify 4 2
        [\<lparr>selectors = [Single ''a'' T_element], validSort = []\<rparr>,
         \<lparr>selectors = [Single ''x'' T_element], validSort = []\<rparr>,
         \<lparr>selectors = [Combined 0 ''+'' 1], validSort = []\<rparr>])
     = Some (Inr ''a + x'')
   \<and> fst (stringify 4 2
        [\<lparr>selectors = [Single ''a'' T_element, Combined 2 ''>'' 1], validSort = []\<rparr>,
         \<lparr>selectors = [Single ''x'' T_element], validSort = []\<rparr>,
         \<lparr>selectors = [Combined 0 ''+'' 1], validSort = []\<rparr>])
     = None"
  by (simp add: builder_defs eval_nat_numeral)

end
